theory Spec2Isabelle
  imports Main
begin

section \<open>Fault-to-frame resolution (drakcore/ipt\_disasm.py)\<close>

subsection \<open>Event records\<close>

text \<open>
  The event log \<open>codemon.log\<close> is a sequence of JSON objects. The code reads them only
  through the accessors of \<open>drakcore.ipt_utils\<close>, so an event is modelled by the values
  those accessors return: Python's unbounded integers are \<open>int\<close>, and the \<open>DumpFile\<close>
  entry of an execframe record is a string (the capture writes the literal
  \<open>(null)\<close> when no page content was saved).
\<close>

record entry =
  CR3 :: int

record fault = entry +
  VA :: int
  PA :: int

record frame = entry +
  PageVA :: int
  TrapPA :: int
  DumpFile :: string

datatype event =
    Pagefault fault      \<comment> \<open>\<open>obj["EventType"] == "pagefault"\<close>\<close>
  | Execframe frame      \<comment> \<open>\<open>obj["EventType"] == "execframe"\<close>\<close>
  | OtherEvent string    \<comment> \<open>any other tag\<close>

subsection \<open>Helpers imported from \<open>drakcore.ipt_utils\<close>\<close>

definition page_align :: "int \<Rightarrow> int" where
  \<comment> \<open>Modelled from the spec: \<open>ipt_utils.page_align\<close> is not among the sources; the spec
      calls it the truncation of an address to its containing 4096-byte page boundary.\<close>
  "page_align addr = addr - addr mod 4096"

definition is_page_aligned :: "int \<Rightarrow> bool" where
  \<comment> \<open>Modelled from the spec: \<open>ipt_utils.is_page_aligned\<close> is not among the sources; the
      spec requires the process identity to lie on a 4096-byte boundary.\<close>
  "is_page_aligned addr \<longleftrightarrow> addr mod 4096 = 0"

definition get_fault_va :: "fault \<Rightarrow> int" where
  \<comment> \<open>Modelled from the spec: the virtual address of a FaultEvent.\<close>
  "get_fault_va f = VA f"

definition get_fault_pa :: "fault \<Rightarrow> int" where
  \<comment> \<open>Modelled from the spec: the physical address of a FaultEvent.\<close>
  "get_fault_pa f = PA f"

definition get_frame_va :: "frame \<Rightarrow> int" where
  \<comment> \<open>Modelled from the spec: the virtual address of a FrameEvent.\<close>
  "get_frame_va f = PageVA f"

definition get_trap_pa :: "frame \<Rightarrow> int" where
  \<comment> \<open>Modelled from the spec: the physical address of a FrameEvent.\<close>
  "get_trap_pa f = TrapPA f"

definition select_cr3 :: "(int \<Rightarrow> bool) \<Rightarrow> 'a entry_scheme list \<Rightarrow> 'a entry_scheme list" where
  \<comment> \<open>Modelled from the spec: \<open>ipt_utils.select_cr3\<close> is not among the sources; the spec
      partitions events by comparing each event's process identity with the target.\<close>
  "select_cr3 pred entries = filter (\<lambda>v. pred (CR3 v)) entries"

subsection \<open>Frame index and frame selection\<close>

text \<open>
  \<open>build_frame_va_map\<close> fills a \<open>defaultdict(list)\<close>: a total function from page
  addresses to frame lists whose value at a key never written is the empty list.
\<close>

fun build_frame_va_map_loop :: "frame list \<Rightarrow> (int \<Rightarrow> frame list) \<Rightarrow> (int \<Rightarrow> frame list)" where
  "build_frame_va_map_loop [] frame_map = frame_map"
| "build_frame_va_map_loop (frame # rest) frame_map =
     (let addr = page_align (get_frame_va frame)
      in build_frame_va_map_loop rest (frame_map(addr := frame_map addr @ [frame])))"

definition build_frame_va_map :: "frame list \<Rightarrow> (int \<Rightarrow> frame list)" where
  "build_frame_va_map frames = build_frame_va_map_loop frames (\<lambda>_. [])"

fun select_frame :: "frame list \<Rightarrow> int \<Rightarrow> frame option" where
  "select_frame [] phys_addr = None"
| "select_frame (frame # rest) phys_addr =
     (if phys_addr = page_align (get_trap_pa frame) then Some frame
      else select_frame rest phys_addr)"

subsection \<open>The resolver\<close>

text \<open>
  \<open>match_frames\<close> keeps three local variables through its loop. Python returns
  \<open>results\<close> and writes the two counters to the log; the model returns all three.
\<close>

record match_state =
  unresolved :: nat
  foreign_resolved :: nat
  results :: "(int \<times> string) list"

definition match_fault ::
  "(int \<Rightarrow> frame list) \<Rightarrow> (int \<Rightarrow> frame list) \<Rightarrow> fault \<Rightarrow> match_state \<Rightarrow> match_state" where
  \<comment> \<open>The body of the loop over \<open>page_faults\<close>. A frame is a record with fields, so
      the test \<open>if frame:\<close> holds exactly when a frame was found.\<close>
  "match_fault frame_map foreign_frame_map fault st =
     (let va = get_fault_va fault;
          pa = get_fault_pa fault;
          va_page = page_align va;
          pa_page = page_align pa;
          own = select_frame (frame_map va_page) pa_page;
          (frame, st1) =
            (if own = None then
               (let foreign = select_frame (foreign_frame_map va_page) pa_page
                in if foreign = None then (foreign, st\<lparr>unresolved := unresolved st + 1\<rparr>)
                   else (foreign, st\<lparr>foreign_resolved := foreign_resolved st + 1\<rparr>))
             else (own, st))
      in case frame of
           Some fr \<Rightarrow> st1\<lparr>results := results st1 @ [(va_page, DumpFile fr)]\<rparr>
         | None \<Rightarrow> st1)"

fun match_loop ::
  "(int \<Rightarrow> frame list) \<Rightarrow> (int \<Rightarrow> frame list) \<Rightarrow> fault list \<Rightarrow> match_state \<Rightarrow> match_state" where
  "match_loop frame_map foreign_frame_map [] st = st"
| "match_loop frame_map foreign_frame_map (fault # rest) st =
     match_loop frame_map foreign_frame_map rest
       (match_fault frame_map foreign_frame_map fault st)"

definition match_frames :: "fault list \<Rightarrow> frame list \<Rightarrow> frame list \<Rightarrow> match_state" where
  "match_frames page_faults frames foreign_frames =
     (let frame_map = build_frame_va_map frames;
          foreign_frame_map = build_frame_va_map foreign_frames
      in match_loop frame_map foreign_frame_map page_faults
           \<lparr>unresolved = 0, foreign_resolved = 0, results = []\<rparr>)"

section \<open>The decoder command line\<close>

subsection \<open>Paths, files and the log\<close>

text \<open>
  A \<open>pathlib\<close> path is the list of its components. \<open>Path(s)\<close> splits \<open>s\<close> at
  \<open>/\<close> and drops empty components and \<open>.\<close>; its \<open>name\<close> is the last component,
  or the empty string when there is none.
\<close>

type_synonym path = "string list"

fun split_slash :: "string \<Rightarrow> string list" where
  "split_slash [] = [[]]"
| "split_slash (c # cs) =
     (if c = CHR ''/'' then [] # split_slash cs
      else (case split_slash cs of
              [] \<Rightarrow> [[c]]
            | p # ps \<Rightarrow> (c # p) # ps))"

definition path_parts :: "string \<Rightarrow> path" where
  "path_parts s = filter (\<lambda>x. x \<noteq> [] \<and> x \<noteq> ''.'') (split_slash s)"

definition path_name :: "path \<Rightarrow> string" where
  \<comment> \<open>The property \<open>name\<close> of a path.\<close>
  "path_name p = (if p = [] then [] else last p)"

definition path_join :: "path \<Rightarrow> string \<Rightarrow> path" where
  \<comment> \<open>The operator \<open>/\<close> of \<open>pathlib\<close> with a relative right operand.\<close>
  "path_join p s = p @ path_parts s"

text \<open>
  What the function reads from outside: \<open>load_drakvuf_output\<close> (of
  \<open>drakcore.ipt_utils\<close>) on a path returns the events of the log or raises, and the
  file system gives each existing path its size (\<open>exists()\<close> and \<open>stat().st_size\<close>).
\<close>

datatype error =
    OSError | JSONDecodeError | KeyError | TypeError | ValueError | UnicodeDecodeError

record world =
  load_drakvuf_output :: "path \<Rightarrow> error + event list"
  st_size :: "path \<Rightarrow> nat option"

text \<open>
  The log records of severity warning and above that \<open>get_ptxed_cmdline\<close> writes; the
  debug and info records (among them the output of \<open>debug_faults\<close>, which computes
  nothing else) are not modelled.
\<close>

datatype log_record =
    Critical_CR3_unaligned int   \<comment> \<open>\<open>log.critical("CR3 must be aligned to page! Got %#x", cr3_value)\<close>\<close>
  | Warning_Missing path         \<comment> \<open>\<open>log.warning(f"Missing {fpath}")\<close>\<close>

text \<open>The arguments of the command line, each kept with the values it is printed from.\<close>

datatype arg =
    Str string          \<comment> \<open>a literal or a string passed through\<close>
  | Hex int             \<comment> \<open>\<open>hex(cr3_value)\<close>\<close>
  | RawPage path int    \<comment> \<open>\<open>f"{fpath}:0x{addr:x}"\<close>\<close>

subsection \<open>\<open>get_ptxed_cmdline\<close>\<close>

definition dump_fpath :: "path \<Rightarrow> string \<Rightarrow> path" where
  \<comment> \<open>\<open>name = Path(fname).name; fpath = analysis_dir / "ipt" / "dumps" / name\<close>\<close>
  "dump_fpath analysis_dir fname =
     (let name = path_name (path_parts fname)
      in path_join (path_join (path_join analysis_dir ''ipt'') ''dumps'') name)"

fun pages_loop ::
  "world \<Rightarrow> path \<Rightarrow> (int \<times> string) list \<Rightarrow> arg list \<times> log_record list
     \<Rightarrow> arg list \<times> log_record list" where
  "pages_loop w analysis_dir [] (pages, logs) = (pages, logs)"
| "pages_loop w analysis_dir ((addr, fname) # rest) (pages, logs) =
     (let fpath = dump_fpath analysis_dir fname
      in case st_size w fpath of
           None \<Rightarrow> pages_loop w analysis_dir rest (pages, logs @ [Warning_Missing fpath])
         | Some sz \<Rightarrow>
             if path_name fpath \<noteq> ''(null)'' \<and> sz = 0x1000
             then pages_loop w analysis_dir rest
                    (pages @ [Str ''--raw'', RawPage fpath addr], logs)
             else pages_loop w analysis_dir rest (pages, logs))"

definition get_ptxed_cmdline ::
  "world \<Rightarrow> path \<Rightarrow> int \<Rightarrow> string \<Rightarrow> bool \<Rightarrow> log_record list \<times> (error + arg list option)" where
  \<comment> \<open>The second component is \<open>Inl e\<close> when the call raises \<open>e\<close>, \<open>Inr None\<close> when it
      returns \<open>None\<close> and \<open>Inr (Some cmdline)\<close> when it returns a command line.\<close>
  "get_ptxed_cmdline w analysis_dir cr3_value pt_stream use_blocks =
     (if \<not> is_page_aligned cr3_value then ([Critical_CR3_unaligned cr3_value], Inr None)
      else case load_drakvuf_output w (path_join analysis_dir ''codemon.log'') of
             Inl e \<Rightarrow> ([], Inl e)
           | Inr codemon_out \<Rightarrow>
               (let page_faults = [f. Pagefault f \<leftarrow> codemon_out];
                    executed_frames = [f. Execframe f \<leftarrow> codemon_out];
                    faults_in_process = select_cr3 (\<lambda>cr3. cr3 = cr3_value) page_faults;
                    frames_in_process = select_cr3 (\<lambda>cr3. cr3 = cr3_value) executed_frames;
                    frames_out_process = select_cr3 (\<lambda>cr3. cr3 \<noteq> cr3_value) executed_frames;
                    faults_sorted = sort_key get_fault_va faults_in_process;
                    mappings =
                      results (match_frames faults_sorted frames_in_process frames_out_process);
                    (pages, logs) = pages_loop w analysis_dir mappings ([], []);
                    binary =
                      (if use_blocks then [Str ''drak-ipt-blocks'', Str ''--cr3'', Hex cr3_value]
                       else [Str ''ptxed'', Str ''--block-decoder'', Str ''--block:show-blocks''])
                in (logs, Inr (Some (binary @ pages @ [Str ''--pt'', Str pt_stream])))))"

section \<open>Normalising the decoders' output\<close>

text \<open>
  A generator is modelled by what it has produced when it ends: the values yielded, in
  order, and the exception that ended it, if one did.
\<close>

type_synonym gen_out = "int list \<times> error option"

definition yield :: "int \<Rightarrow> gen_out \<Rightarrow> gen_out" where
  "yield v out = (v # fst out, snd out)"

subsection \<open>Format A: \<open>generate_ipt_blocks\<close>\<close>

text \<open>
  The values of \<open>json.loads\<close>. The code never looks into a number, so one constructor
  stands for all of them.
\<close>

datatype json =
    JNull | JBool bool | JNum int | JStr string | JArr "json list"
  | JObj "(string \<times> json) list"   \<comment> \<open>the members in the order of the text\<close>

fun getitem :: "json \<Rightarrow> string \<Rightarrow> error + json" where
  \<comment> \<open>\<open>entry[key]\<close> with a string key: of a repeated member the last one is kept by
      \<open>json.loads\<close>; a value that is no object raises \<open>TypeError\<close>.\<close>
  "getitem (JObj members) key =
     (case map_of (rev members) key of None \<Rightarrow> Inl KeyError | Some v \<Rightarrow> Inr v)"
| "getitem _ key = Inl TypeError"

fun int_base16 :: "(string \<Rightarrow> int option) \<Rightarrow> json \<Rightarrow> error + int" where
  \<comment> \<open>\<open>int(x, 16)\<close>: a string goes to the parser, anything else raises \<open>TypeError\<close>.\<close>
  "int_base16 parse (JStr s) = (case parse s of None \<Rightarrow> Inl ValueError | Some v \<Rightarrow> Inr v)"
| "int_base16 parse _ = Inl TypeError"

text \<open>
  The library functions \<open>json.loads\<close> and the string parser of \<open>int(\<cdot>, 16)\<close> are
  parameters: \<open>loads\<close> gives the value of a line or the exception it raises, \<open>parse\<close>
  the integer a string denotes in base 16 or \<open>None\<close> where Python raises
  \<open>ValueError\<close>.
\<close>

fun generate_ipt_blocks ::
  "(string \<Rightarrow> error + json) \<Rightarrow> (string \<Rightarrow> int option) \<Rightarrow> string list \<Rightarrow> gen_out" where
  "generate_ipt_blocks loads parse [] = ([], None)"
| "generate_ipt_blocks loads parse (line # rest) =
     (case loads line of
        Inl e \<Rightarrow> ([], Some e)
      | Inr entry \<Rightarrow>
          (case getitem entry ''event'' of
             Inl e \<Rightarrow> ([], Some e)
           | Inr tag \<Rightarrow>
               if tag = JStr ''block_executed'' then
                 (case getitem entry ''data'' of
                    Inl e \<Rightarrow> ([], Some e)
                  | Inr d \<Rightarrow>
                      (case int_base16 parse d of
                         Inl e \<Rightarrow> ([], Some e)
                       | Inr v \<Rightarrow> yield v (generate_ipt_blocks loads parse rest)))
               else generate_ipt_blocks loads parse rest))"

subsection \<open>Format B: \<open>generate_ptxed\<close>\<close>

text \<open>
  A line is a \<open>bytes\<close> object: a list of 8-bit characters. \<open>decode()\<close> is strict
  UTF-8, which raises on a byte sequence that is not well formed; on a well-formed one
  every byte below 128 decodes to itself and every other character decodes to a code
  point above 127. So, once \<open>decode()\<close> has succeeded, the decoded text consists of
  the characters \<open>0123456789abcdef\<close> exactly when the bytes do, and it equals
  \<open>[block]\<close> exactly when the bytes do.
\<close>

definition cont :: "nat \<Rightarrow> bool" where
  "cont b \<longleftrightarrow> 0x80 \<le> b \<and> b \<le> 0xBF"

fun utf8_ok :: "nat list \<Rightarrow> bool" where
  "utf8_ok [] = True"
| "utf8_ok (b # bs) =
     (if b < 0x80 then utf8_ok bs
      else if 0xC2 \<le> b \<and> b \<le> 0xDF then
        (case bs of c1 # r \<Rightarrow> cont c1 \<and> utf8_ok r | _ \<Rightarrow> False)
      else if b = 0xE0 then
        (case bs of c1 # c2 # r \<Rightarrow> 0xA0 \<le> c1 \<and> c1 \<le> 0xBF \<and> cont c2 \<and> utf8_ok r | _ \<Rightarrow> False)
      else if (0xE1 \<le> b \<and> b \<le> 0xEC) \<or> b = 0xEE \<or> b = 0xEF then
        (case bs of c1 # c2 # r \<Rightarrow> cont c1 \<and> cont c2 \<and> utf8_ok r | _ \<Rightarrow> False)
      else if b = 0xED then
        (case bs of c1 # c2 # r \<Rightarrow> 0x80 \<le> c1 \<and> c1 \<le> 0x9F \<and> cont c2 \<and> utf8_ok r | _ \<Rightarrow> False)
      else if b = 0xF0 then
        (case bs of c1 # c2 # c3 # r \<Rightarrow>
           0x90 \<le> c1 \<and> c1 \<le> 0xBF \<and> cont c2 \<and> cont c3 \<and> utf8_ok r | _ \<Rightarrow> False)
      else if 0xF1 \<le> b \<and> b \<le> 0xF3 then
        (case bs of c1 # c2 # c3 # r \<Rightarrow> cont c1 \<and> cont c2 \<and> cont c3 \<and> utf8_ok r | _ \<Rightarrow> False)
      else if b = 0xF4 then
        (case bs of c1 # c2 # c3 # r \<Rightarrow>
           0x80 \<le> c1 \<and> c1 \<le> 0x8F \<and> cont c2 \<and> cont c3 \<and> utf8_ok r | _ \<Rightarrow> False)
      else False)"

definition decodes :: "string \<Rightarrow> bool" where
  \<comment> \<open>\<open>decode()\<close> returns instead of raising \<open>UnicodeDecodeError\<close>.\<close>
  "decodes bs = utf8_ok (map of_char bs)"

definition hexdigit :: "char \<Rightarrow> bool" where
  \<comment> \<open>\<open>c in "0123456789abcdef"\<close>\<close>
  "hexdigit c \<longleftrightarrow> c \<in> set ''0123456789abcdef''"

definition digit_val :: "char \<Rightarrow> int" where
  "digit_val c = (let n = of_char c in if n \<le> (57::int) then n - 48 else n - 87)"

definition hexvalue :: "string \<Rightarrow> int" where
  \<comment> \<open>The number that a string of the characters \<open>0123456789abcdef\<close> denotes in base 16.\<close>
  "hexvalue bs = foldl (\<lambda>acc c. 16 * acc + digit_val c) 0 bs"

definition int16 :: "string \<Rightarrow> int option" where
  \<comment> \<open>\<open>int(bs, 16)\<close> on bytes that are all characters of \<open>0123456789abcdef\<close>, the only
      ones it is called on: the empty string raises \<open>ValueError\<close>.\<close>
  "int16 bs = (if bs = [] then None else Some (hexvalue bs))"

definition startswith :: "string \<Rightarrow> string \<Rightarrow> bool" where
  "startswith line p \<longleftrightarrow> take (length p) line = p"

definition whitespace :: "char \<Rightarrow> bool" where
  \<comment> \<open>The bytes that \<open>bytes.strip()\<close> removes: space, tab, newline, return, VT, FF.\<close>
  "whitespace c \<longleftrightarrow> c \<in> set [CHR 0x20, CHR 0x09, CHR 0x0A, CHR 0x0D, CHR 0x0B, CHR 0x0C]"

definition strip :: "string \<Rightarrow> string" where
  "strip bs = rev (dropWhile whitespace (rev (dropWhile whitespace bs)))"

definition line_tail :: "string \<Rightarrow> bool \<Rightarrow> error + bool" where
  \<comment> \<open>The loop body after the address test: the value of \<open>prev_block\<close> for the next
      line, or the exception raised.\<close>
  "line_tail line prev_block =
     (if startswith line ''[cbr'' then Inr prev_block
      else if startswith line ''[ptwrite'' then Inr prev_block
      else if startswith line ''[enabled'' then Inr prev_block
      else if startswith line ''[disabled'' then Inr prev_block
      else if startswith line ''[resumed'' then Inr prev_block
      else if startswith line ''[exec mode'' then Inr prev_block
      else if \<not> decodes (strip line) then Inl UnicodeDecodeError
      else if strip line = ''[block]'' then Inr True
      else Inr prev_block)"

fun generate_ptxed_loop :: "bool \<Rightarrow> string list \<Rightarrow> gen_out" where
  "generate_ptxed_loop prev_block [] = ([], None)"
| "generate_ptxed_loop prev_block (line # rest) =
     (if prev_block then
        (if \<not> decodes (take 16 line) then ([], Some UnicodeDecodeError)
         else if list_all hexdigit (take 16 line) then
           (case int16 (take 16 line) of
              None \<Rightarrow> ([], Some ValueError)
            | Some v \<Rightarrow>
                yield v
                  (case line_tail line False of
                     Inl e \<Rightarrow> ([], Some e)
                   | Inr pb \<Rightarrow> generate_ptxed_loop pb rest))
         else
           (case line_tail line prev_block of
              Inl e \<Rightarrow> ([], Some e)
            | Inr pb \<Rightarrow> generate_ptxed_loop pb rest))
      else
        (case line_tail line prev_block of
           Inl e \<Rightarrow> ([], Some e)
         | Inr pb \<Rightarrow> generate_ptxed_loop pb rest))"

definition generate_ptxed :: "string list \<Rightarrow> gen_out" where
  "generate_ptxed lines = generate_ptxed_loop False lines"

section \<open>Notation of the statements\<close>

text \<open>
  The records of the structured format, for the statements about \<open>generate_ipt_blocks\<close>.
  A line is a well-formed record when \<open>json.loads\<close> gives an object with a member
  \<open>event\<close> and, if that member is the string \<open>block_executed\<close>, a member
  \<open>data\<close> that is a string in which \<open>int(\<cdot>, 16)\<close> reads a number.
\<close>

definition record_ok :: "(string \<Rightarrow> error + json) \<Rightarrow> (string \<Rightarrow> int option) \<Rightarrow> string \<Rightarrow> bool" where
  "record_ok loads parse line =
     (case loads line of
        Inr (JObj members) \<Rightarrow>
          (case map_of (rev members) ''event'' of
             None \<Rightarrow> False
           | Some tag \<Rightarrow>
               tag \<noteq> JStr ''block_executed'' \<or>
               (case map_of (rev members) ''data'' of
                  Some (JStr s) \<Rightarrow> parse s \<noteq> None
                | _ \<Rightarrow> False))
      | _ \<Rightarrow> False)"

text \<open>
  The value a record contributes in the words of the specification: the data field, read
  in base 16, of a record tagged \<open>block_executed\<close>, and nothing for any other record.
\<close>

definition block_value :: "(string \<Rightarrow> error + json) \<Rightarrow> (string \<Rightarrow> int option) \<Rightarrow> string \<Rightarrow> int option" where
  "block_value loads parse line =
     (case loads line of
        Inr (JObj members) \<Rightarrow>
          (if map_of (rev members) ''event'' = Some (JStr ''block_executed'') then
             (case map_of (rev members) ''data'' of
                Some (JStr s) \<Rightarrow> parse s
              | _ \<Rightarrow> None)
           else None)
      | _ \<Rightarrow> None)"

text \<open>A frame lies on the pages of a fault: the same virtual page and the same physical page.\<close>

abbreviation same_page :: "fault \<Rightarrow> frame \<Rightarrow> bool" where
  "same_page fault fr \<equiv>
     page_align (get_frame_va fr) = page_align (get_fault_va fault) \<and>
     page_align (get_trap_pa fr) = page_align (get_fault_pa fault)"

section \<open>Properties of the resolver\<close>

lemma build_loop_at:
  "build_frame_va_map_loop frames fm k = fm k @ filter (\<lambda>f. page_align (get_frame_va f) = k) frames"
  by (induction frames arbitrary: fm) (auto simp: Let_def)

lemma build_frame_va_map_at:
  "build_frame_va_map frames k = filter (\<lambda>f. page_align (get_frame_va f) = k) frames"
  by (simp add: build_frame_va_map_def build_loop_at)

lemma select_frame_None:
  "select_frame frames p = None \<longleftrightarrow> (\<forall>f \<in> set frames. page_align (get_trap_pa f) \<noteq> p)"
  by (induction frames) auto

lemma select_frame_SomeD:
  "select_frame frames p = Some f \<Longrightarrow> f \<in> set frames \<and> page_align (get_trap_pa f) = p"
  by (induction frames) (auto split: if_splits)

lemma select_own_None:
  "select_frame (build_frame_va_map frames vp) pp = None \<longleftrightarrow>
     (\<forall>fr \<in> set frames. \<not> (page_align (get_frame_va fr) = vp \<and> page_align (get_trap_pa fr) = pp))"
  by (auto simp: select_frame_None build_frame_va_map_at)

lemma select_own_SomeD:
  "select_frame (build_frame_va_map frames vp) pp = Some fr \<Longrightarrow>
     fr \<in> set frames \<and> page_align (get_frame_va fr) = vp \<and> page_align (get_trap_pa fr) = pp"
  by (auto dest: select_frame_SomeD simp: build_frame_va_map_at)

lemma select_frame_Some:
  "select_frame frames p = Some f \<longleftrightarrow>
     (\<exists>pre post. frames = pre @ f # post \<and> page_align (get_trap_pa f) = p \<and>
        (\<forall>g \<in> set pre. page_align (get_trap_pa g) \<noteq> p))"
proof (induction frames)
  case Nil
  then show ?case by simp
next
  case (Cons a frames)
  show ?case
  proof (cases "p = page_align (get_trap_pa a)")
    case True
    have "(\<exists>pre post. a # frames = pre @ f # post \<and> page_align (get_trap_pa f) = p \<and>
        (\<forall>g \<in> set pre. page_align (get_trap_pa g) \<noteq> p)) \<longleftrightarrow> a = f" (is "?L \<longleftrightarrow> _")
    proof
      assume ?L
      then obtain pre post where h: "a # frames = pre @ f # post"
        "\<forall>g \<in> set pre. page_align (get_trap_pa g) \<noteq> p" by blast
      show "a = f"
      proof (cases pre)
        case Nil
        then show ?thesis using h by simp
      next
        case (Cons b pre')
        then have "b = a" using h by simp
        then show ?thesis using h Cons True by simp
      qed
    next
      assume "a = f"
      then have "a # frames = [] @ f # frames" by simp
      then show ?L using True \<open>a = f\<close> by fastforce
    qed
    then show ?thesis using True by auto
  next
    case False
    have "(\<exists>pre post. a # frames = pre @ f # post \<and> page_align (get_trap_pa f) = p \<and>
        (\<forall>g \<in> set pre. page_align (get_trap_pa g) \<noteq> p)) \<longleftrightarrow>
        (\<exists>pre post. frames = pre @ f # post \<and> page_align (get_trap_pa f) = p \<and>
        (\<forall>g \<in> set pre. page_align (get_trap_pa g) \<noteq> p))" (is "?L \<longleftrightarrow> ?R")
    proof
      assume ?L
      then obtain pre post where h: "a # frames = pre @ f # post"
        "page_align (get_trap_pa f) = p" "\<forall>g \<in> set pre. page_align (get_trap_pa g) \<noteq> p"
        by blast
      show ?R
      proof (cases pre)
        case Nil
        then show ?thesis using h False by auto
      next
        case (Cons b pre')
        then have "frames = pre' @ f # post" using h by simp
        then show ?thesis using h Cons by auto
      qed
    next
      assume ?R
      then obtain pre post where h: "frames = pre @ f # post"
        "page_align (get_trap_pa f) = p" "\<forall>g \<in> set pre. page_align (get_trap_pa g) \<noteq> p"
        by blast
      then have "a # frames = (a # pre) @ f # post" by simp
      moreover have "\<forall>g \<in> set (a # pre). page_align (get_trap_pa g) \<noteq> p"
        using h False by auto
      ultimately show ?L using h(2) by blast
    qed
    then show ?thesis using False Cons.IH by simp
  qed
qed

text \<open>
  Claim C8. \<open>select_frame\<close> returns a frame exactly when that frame is the first of the
  group, in the order of insertion, whose page-aligned physical address is the target
  page (every frame before it misses the target), and it returns \<open>None\<close> exactly when
  no frame of the group lies on the target page.
\<close>

theorem select_frame_first_match:
  "(select_frame frames p = Some f \<longleftrightarrow>
      (\<exists>pre post. frames = pre @ f # post \<and> page_align (get_trap_pa f) = p \<and>
         (\<forall>g \<in> set pre. page_align (get_trap_pa g) \<noteq> p))) \<and>
   (select_frame frames p = None \<longleftrightarrow> (\<forall>g \<in> set frames. page_align (get_trap_pa g) \<noteq> p))"
  using select_frame_Some [of frames p f] select_frame_None [of frames p] by simp

text \<open>Of two frames on the target page the earlier one is returned.\<close>

theorem select_frame_first_match_witness:
  "select_frame
     [\<lparr>CR3 = 0x5000, PageVA = 0x7000, TrapPA = 0x8000, DumpFile = ''f0''\<rparr>,
      \<lparr>CR3 = 0x5000, PageVA = 0x7000, TrapPA = 0x9010, DumpFile = ''f1''\<rparr>,
      \<lparr>CR3 = 0x5000, PageVA = 0x7000, TrapPA = 0x9000, DumpFile = ''f2''\<rparr>] 0x9000
     = Some \<lparr>CR3 = 0x5000, PageVA = 0x7000, TrapPA = 0x9010, DumpFile = ''f1''\<rparr> \<and>
   select_frame
     [\<lparr>CR3 = 0x5000, PageVA = 0x7000, TrapPA = 0x8000, DumpFile = ''f0''\<rparr>] 0x9000 = None"
proof -
  let ?f0 = "\<lparr>CR3 = 0x5000, PageVA = 0x7000, TrapPA = 0x8000, DumpFile = ''f0''\<rparr>"
  let ?f1 = "\<lparr>CR3 = 0x5000, PageVA = 0x7000, TrapPA = 0x9010, DumpFile = ''f1''\<rparr>"
  let ?f2 = "\<lparr>CR3 = 0x5000, PageVA = 0x7000, TrapPA = 0x9000, DumpFile = ''f2''\<rparr>"
  have split: "[?f0, ?f1, ?f2] = [?f0] @ ?f1 # [?f2]" by simp
  have "page_align (get_trap_pa ?f1) = 0x9000"
    and "\<forall>g \<in> set [?f0]. page_align (get_trap_pa g) \<noteq> 0x9000"
    by (simp_all add: page_align_def get_trap_pa_def)
  with split have "\<exists>pre post. [?f0, ?f1, ?f2] = pre @ ?f1 # post \<and>
      page_align (get_trap_pa ?f1) = 0x9000 \<and>
      (\<forall>g \<in> set pre. page_align (get_trap_pa g) \<noteq> 0x9000)"
    by blast
  then have "select_frame [?f0, ?f1, ?f2] 0x9000 = Some ?f1"
    using select_frame_first_match [of "[?f0, ?f1, ?f2]" "0x9000" ?f1] by blast
  moreover have "select_frame [?f0] 0x9000 = None"
    using select_frame_first_match [of "[?f0]" "0x9000" ?f0]
    by (simp add: page_align_def get_trap_pa_def)
  ultimately show ?thesis by simp
qed

lemma match_fault_own:
  "select_frame (fm (page_align (get_fault_va fault))) (page_align (get_fault_pa fault)) = Some fr \<Longrightarrow>
   match_fault fm ffm fault st =
     st\<lparr>results := results st @ [(page_align (get_fault_va fault), DumpFile fr)]\<rparr>"
  by (simp add: match_fault_def Let_def)

lemma match_fault_none:
  "select_frame (fm (page_align (get_fault_va fault))) (page_align (get_fault_pa fault)) = None \<Longrightarrow>
   select_frame (ffm (page_align (get_fault_va fault))) (page_align (get_fault_pa fault)) = None \<Longrightarrow>
   match_fault fm ffm fault st = st\<lparr>unresolved := unresolved st + 1\<rparr>"
  by (simp add: match_fault_def Let_def)

lemma match_loop_append:
  "match_loop fm ffm (xs @ ys) st = match_loop fm ffm ys (match_loop fm ffm xs st)"
  by (induction xs arbitrary: st) simp_all

lemma match_frames_at:
  "match_frames (pre @ fault # post) frames foreign_frames =
     match_loop (build_frame_va_map frames) (build_frame_va_map foreign_frames) post
       (match_fault (build_frame_va_map frames) (build_frame_va_map foreign_frames) fault
          (match_frames pre frames foreign_frames))"
  by (simp add: match_frames_def match_loop_append Let_def)

text \<open>
  Claim C1. A fault whose virtual page and physical page are those of a frame of the
  own-process pool is resolved to a frame of that pool lying on the same pages. The loop
  body appends the dump file of that frame and counts nothing, whatever the foreign pool
  holds: a foreign frame on the same virtual page is never preferred, and the foreign
  pool decides nothing for this fault. The same holds wherever the fault stands in the
  list given to \<open>match_frames\<close>: the state reached on the faults before it gets that
  one entry, and the loop goes on with the faults after it.
\<close>

theorem own_frame_preferred:
  assumes "own \<in> set frames" and "same_page fault own"
  shows "\<exists>fr \<in> set frames. same_page fault fr \<and>
           (\<forall>foreign_frames st.
              match_fault (build_frame_va_map frames) (build_frame_va_map foreign_frames) fault st
                = st\<lparr>results := results st @ [(page_align (get_fault_va fault), DumpFile fr)]\<rparr>) \<and>
           (\<forall>foreign_frames pre post.
              match_frames (pre @ fault # post) frames foreign_frames
                = match_loop (build_frame_va_map frames) (build_frame_va_map foreign_frames) post
                    ((match_frames pre frames foreign_frames)
                       \<lparr>results := results (match_frames pre frames foreign_frames)
                          @ [(page_align (get_fault_va fault), DumpFile fr)]\<rparr>))"
proof -
  let ?vp = "page_align (get_fault_va fault)" and ?pp = "page_align (get_fault_pa fault)"
  have "select_frame (build_frame_va_map frames ?vp) ?pp \<noteq> None"
    using assms by (auto simp: select_own_None)
  then obtain fr where sel: "select_frame (build_frame_va_map frames ?vp) ?pp = Some fr"
    by blast
  have "fr \<in> set frames" and "same_page fault fr"
    using select_own_SomeD [OF sel] by simp_all
  moreover have step: "match_fault (build_frame_va_map frames) ffm fault st
      = st\<lparr>results := results st @ [(?vp, DumpFile fr)]\<rparr>" for ffm st
    using sel by (rule match_fault_own)
  ultimately show ?thesis
    by (intro bexI [of _ fr]) (simp_all add: match_frames_at)
qed

text \<open>An own frame and a foreign frame on the same pages: the own one is taken.\<close>

theorem own_frame_preferred_witness:
  "match_frames [\<lparr>CR3 = 0x5000, VA = 0x7004, PA = 0x9008\<rparr>]
     [\<lparr>CR3 = 0x5000, PageVA = 0x7000, TrapPA = 0x9000, DumpFile = ''own''\<rparr>]
     [\<lparr>CR3 = 0x6000, PageVA = 0x7000, TrapPA = 0x9000, DumpFile = ''foreign''\<rparr>]
   = \<lparr>unresolved = 0, foreign_resolved = 0, results = [(0x7000, ''own'')]\<rparr>"
proof -
  let ?fault = "\<lparr>CR3 = 0x5000, VA = 0x7004, PA = 0x9008\<rparr>"
  let ?own = "\<lparr>CR3 = 0x5000, PageVA = 0x7000, TrapPA = 0x9000, DumpFile = ''own''\<rparr>"
  let ?foreign = "\<lparr>CR3 = 0x6000, PageVA = 0x7000, TrapPA = 0x9000, DumpFile = ''foreign''\<rparr>"
  have "?own \<in> set [?own]" by simp
  moreover have "same_page ?fault ?own"
    by (simp add: page_align_def get_frame_va_def get_fault_va_def get_trap_pa_def
        get_fault_pa_def)
  ultimately obtain fr where "fr \<in> set [?own]"
    and "\<forall>foreign_frames pre post. match_frames (pre @ ?fault # post) [?own] foreign_frames
           = match_loop (build_frame_va_map [?own]) (build_frame_va_map foreign_frames) post
               ((match_frames pre [?own] foreign_frames)
                  \<lparr>results := results (match_frames pre [?own] foreign_frames)
                     @ [(page_align (get_fault_va ?fault), DumpFile fr)]\<rparr>)"
    using own_frame_preferred [of ?own "[?own]" ?fault] by blast
  then have "fr = ?own" and "match_frames ([] @ ?fault # []) [?own] [?foreign]
           = match_loop (build_frame_va_map [?own]) (build_frame_va_map [?foreign]) []
               ((match_frames [] [?own] [?foreign])
                  \<lparr>results := results (match_frames [] [?own] [?foreign])
                     @ [(page_align (get_fault_va ?fault), DumpFile fr)]\<rparr>)"
    by (simp, blast)
  then show ?thesis
    by (simp add: match_frames_def page_align_def get_fault_va_def)
qed

lemma match_loop_all_unresolved:
  assumes "\<forall>fault \<in> set faults.
     select_frame (fm (page_align (get_fault_va fault))) (page_align (get_fault_pa fault)) = None \<and>
     select_frame (ffm (page_align (get_fault_va fault))) (page_align (get_fault_pa fault)) = None"
  shows "match_loop fm ffm faults st = st\<lparr>unresolved := unresolved st + length faults\<rparr>"
  using assms
proof (induction faults arbitrary: st)
  case Nil
  then show ?case by simp
next
  case (Cons a faults)
  then show ?case by (simp add: match_fault_none)
qed

text \<open>
  Claim C4. A fault with no frame on its pages in either pool adds exactly one to the
  unresolved counter and leaves the mapping and the foreign counter as they were,
  wherever it stands in the list; the model of the resolver has no failing branch, as the
  source has no statement that raises. A run in which no fault finds a frame returns the
  empty mapping, with every fault counted as unresolved.
\<close>

theorem unmatched_fault_counted:
  "((\<forall>fr \<in> set frames \<union> set foreign_frames. \<not> same_page fault fr) \<longrightarrow>
      match_fault (build_frame_va_map frames) (build_frame_va_map foreign_frames) fault st
        = st\<lparr>unresolved := unresolved st + 1\<rparr> \<and>
      (\<forall>pre post.
         match_frames (pre @ fault # post) frames foreign_frames
           = match_loop (build_frame_va_map frames) (build_frame_va_map foreign_frames) post
               ((match_frames pre frames foreign_frames)
                  \<lparr>unresolved := unresolved (match_frames pre frames foreign_frames) + 1\<rparr>))) \<and>
   ((\<forall>fault \<in> set faults. \<forall>fr \<in> set frames \<union> set foreign_frames. \<not> same_page fault fr) \<longrightarrow>
      match_frames faults frames foreign_frames
        = \<lparr>unresolved = length faults, foreign_resolved = 0, results = []\<rparr>)"
proof (intro conjI impI)
  assume "\<forall>fr \<in> set frames \<union> set foreign_frames. \<not> same_page fault fr"
  then have step: "match_fault (build_frame_va_map frames) (build_frame_va_map foreign_frames)
      fault s = s\<lparr>unresolved := unresolved s + 1\<rparr>" for s
    by (intro match_fault_none) (auto simp: select_own_None)
  show "match_fault (build_frame_va_map frames) (build_frame_va_map foreign_frames) fault st
        = st\<lparr>unresolved := unresolved st + 1\<rparr>"
    by (rule step)
  show "\<forall>pre post.
         match_frames (pre @ fault # post) frames foreign_frames
           = match_loop (build_frame_va_map frames) (build_frame_va_map foreign_frames) post
               ((match_frames pre frames foreign_frames)
                  \<lparr>unresolved := unresolved (match_frames pre frames foreign_frames) + 1\<rparr>)"
    by (simp add: match_frames_at step)
next
  assume "\<forall>fault \<in> set faults. \<forall>fr \<in> set frames \<union> set foreign_frames. \<not> same_page fault fr"
  then have "\<forall>fault \<in> set faults.
     select_frame (build_frame_va_map frames (page_align (get_fault_va fault)))
       (page_align (get_fault_pa fault)) = None \<and>
     select_frame (build_frame_va_map foreign_frames (page_align (get_fault_va fault)))
       (page_align (get_fault_pa fault)) = None"
    by (auto simp: select_own_None)
  then show "match_frames faults frames foreign_frames
        = \<lparr>unresolved = length faults, foreign_resolved = 0, results = []\<rparr>"
    by (simp add: match_frames_def match_loop_all_unresolved)
qed

text \<open>Each pool has a frame on one of the two pages only: the fault is unresolved.\<close>

theorem unmatched_fault_counted_witness:
  "match_frames [\<lparr>CR3 = 0x5000, VA = 0x7004, PA = 0x9008\<rparr>]
     [\<lparr>CR3 = 0x5000, PageVA = 0x7000, TrapPA = 0xA000, DumpFile = ''f1''\<rparr>]
     [\<lparr>CR3 = 0x6000, PageVA = 0x8000, TrapPA = 0x9000, DumpFile = ''f2''\<rparr>]
   = \<lparr>unresolved = 1, foreign_resolved = 0, results = []\<rparr>"
proof -
  let ?fault = "\<lparr>CR3 = 0x5000, VA = 0x7004, PA = 0x9008\<rparr>"
  let ?a = "\<lparr>CR3 = 0x5000, PageVA = 0x7000, TrapPA = 0xA000, DumpFile = ''f1''\<rparr>"
  let ?b = "\<lparr>CR3 = 0x6000, PageVA = 0x8000, TrapPA = 0x9000, DumpFile = ''f2''\<rparr>"
  have one: "\<forall>fr \<in> set [?a] \<union> set [?b]. \<not> same_page ?fault fr"
    by (simp add: page_align_def get_frame_va_def get_fault_va_def get_trap_pa_def
        get_fault_pa_def)
  then have "\<forall>fault \<in> set [?fault]. \<forall>fr \<in> set [?a] \<union> set [?b]. \<not> same_page fault fr"
    by simp
  then have "match_frames [?fault] [?a] [?b]
      = \<lparr>unresolved = length [?fault], foreign_resolved = 0, results = []\<rparr>"
    using unmatched_fault_counted [of "[?a]" "[?b]" ?fault _ "[?fault]"] by blast
  then show ?thesis by simp
qed

lemma match_fault_counts:
  "length (results (match_fault fm ffm a st)) + unresolved (match_fault fm ffm a st)
     = Suc (length (results st) + unresolved st) \<and>
   foreign_resolved (match_fault fm ffm a st) + length (results st)
     \<le> length (results (match_fault fm ffm a st)) + foreign_resolved st"
  by (auto simp: match_fault_def Let_def split: option.splits)

lemma match_loop_counts:
  "length (results (match_loop fm ffm faults st)) + unresolved (match_loop fm ffm faults st)
     = length (results st) + unresolved st + length faults \<and>
   foreign_resolved (match_loop fm ffm faults st) + length (results st)
     \<le> length (results (match_loop fm ffm faults st)) + foreign_resolved st"
proof (induction faults arbitrary: st)
  case Nil
  then show ?case by simp
next
  case (Cons a faults)
  show ?case
    using Cons.IH [of "match_fault fm ffm a st"] match_fault_counts [of fm ffm a st]
    by simp
qed

text \<open>
  Claim C9. Every fault is classified exactly once: the mapping entries and the unresolved
  faults together are as many as the faults given, and the faults resolved from the
  foreign pool are at most as many as the mapping entries.
\<close>

theorem every_fault_classified_once:
  "length (results (match_frames faults frames foreign_frames))
     + unresolved (match_frames faults frames foreign_frames) = length faults \<and>
   foreign_resolved (match_frames faults frames foreign_frames)
     \<le> length (results (match_frames faults frames foreign_frames))"
  using match_loop_counts [of "build_frame_va_map frames" "build_frame_va_map foreign_frames"
      faults "\<lparr>unresolved = 0, foreign_resolved = 0, results = []\<rparr>"]
  by (simp add: match_frames_def)

text \<open>Two faults, one resolved and one not.\<close>

theorem every_fault_classified_once_witness:
  "length (results (match_frames
      [\<lparr>CR3 = 0x5000, VA = 0x7004, PA = 0x9008\<rparr>, \<lparr>CR3 = 0x5000, VA = 0x8000, PA = 0xA000\<rparr>]
      [\<lparr>CR3 = 0x5000, PageVA = 0x7000, TrapPA = 0x9000, DumpFile = ''f1''\<rparr>] []))
   + unresolved (match_frames
      [\<lparr>CR3 = 0x5000, VA = 0x7004, PA = 0x9008\<rparr>, \<lparr>CR3 = 0x5000, VA = 0x8000, PA = 0xA000\<rparr>]
      [\<lparr>CR3 = 0x5000, PageVA = 0x7000, TrapPA = 0x9000, DumpFile = ''f1''\<rparr>] []) = 2"
  using every_fault_classified_once [of
      "[\<lparr>CR3 = 0x5000, VA = 0x7004, PA = 0x9008\<rparr>, \<lparr>CR3 = 0x5000, VA = 0x8000, PA = 0xA000\<rparr>]"
      "[\<lparr>CR3 = 0x5000, PageVA = 0x7000, TrapPA = 0x9000, DumpFile = ''f1''\<rparr>]" "[]"]
  by simp

section \<open>Properties of the command line\<close>

text \<open>
  Claim C2, as amended. With a process identity that is not a multiple of 4096,
  \<open>get_ptxed_cmdline\<close> raises nothing: it writes the critical record and returns
  \<open>None\<close>, for every log and every file system. The log is not loaded (a log whose
  loading raises changes nothing), no event is classified and the resolver is not called.
\<close>

theorem unaligned_cr3_stops_before_resolution:
  "\<not> is_page_aligned cr3_value \<Longrightarrow>
   get_ptxed_cmdline w analysis_dir cr3_value pt_stream use_blocks
     = ([Critical_CR3_unaligned cr3_value], Inr None)"
  by (simp add: get_ptxed_cmdline_def)

text \<open>The log cannot even be loaded here, and the call still returns \<open>None\<close>.\<close>

theorem unaligned_cr3_stops_before_resolution_witness:
  "get_ptxed_cmdline \<lparr>load_drakvuf_output = (\<lambda>p. Inl OSError), st_size = (\<lambda>p. None)\<rparr>
     [''analysis''] 0x5001 ''stream'' False
   = ([Critical_CR3_unaligned 0x5001], Inr None)"
proof -
  have "\<not> is_page_aligned 0x5001" by (simp add: is_page_aligned_def)
  then show ?thesis by (rule unaligned_cr3_stops_before_resolution)
qed

text \<open>
  Claim C2 as stated has the call fail with an alignment error. The call ends by its
  \<open>return\<close> statement: its result is \<open>None\<close>, and no exception leaves it.
\<close>

theorem unaligned_cr3_returns_counterexample:
  "snd (get_ptxed_cmdline \<lparr>load_drakvuf_output = (\<lambda>p. Inr []), st_size = (\<lambda>p. None)\<rparr>
          [''analysis''] 0x5001 ''stream'' False) = Inr None \<and>
   (\<forall>e. snd (get_ptxed_cmdline \<lparr>load_drakvuf_output = (\<lambda>p. Inr []), st_size = (\<lambda>p. None)\<rparr>
          [''analysis''] 0x5001 ''stream'' False) \<noteq> Inl e)"
  by (simp add: get_ptxed_cmdline_def is_page_aligned_def)

lemma pages_loop_acc:
  "pages_loop w d ms (pages, logs) =
     (pages @ fst (pages_loop w d ms ([], [])), logs @ snd (pages_loop w d ms ([], [])))"
proof (induction ms arbitrary: pages logs)
  case Nil
  then show ?case by simp
next
  case (Cons e ms)
  obtain addr fname where e: "e = (addr, fname)" by (cases e)
  let ?fpath = "dump_fpath d fname"
  show ?case
  proof (cases "st_size w ?fpath")
    case None
    then show ?thesis
      using Cons.IH [of pages "logs @ [Warning_Missing ?fpath]"]
        Cons.IH [of "[]" "[Warning_Missing ?fpath]"]
      by (simp add: e Let_def)
  next
    case (Some sz)
    show ?thesis
    proof (cases "path_name ?fpath \<noteq> ''(null)'' \<and> sz = 0x1000")
      case True
      then show ?thesis
        using Some Cons.IH [of "pages @ [Str ''--raw'', RawPage ?fpath addr]" logs]
          Cons.IH [of "[Str ''--raw'', RawPage ?fpath addr]" "[]"]
        by (simp add: e Let_def)
    next
      case False
      then show ?thesis
        using Some Cons.IH [of pages logs] by (auto simp: e Let_def)
    qed
  qed
qed

lemma pages_loop_append:
  "pages_loop w d (xs @ ys) acc = pages_loop w d ys (pages_loop w d xs acc)"
proof (induction xs arbitrary: acc)
  case Nil
  then show ?case by (cases acc) simp
next
  case (Cons e xs)
  obtain addr fname where e: "e = (addr, fname)" by (cases e)
  obtain pages logs where acc: "acc = (pages, logs)" by (cases acc)
  show ?case
    by (simp add: e acc Let_def Cons.IH split: option.split)
qed

lemma pages_loop_skip:
  assumes "st_size w (dump_fpath d fname) \<noteq> Some 0x1000"
  shows "fst (pages_loop w d ((addr, fname) # rest) (pages, logs))
           = fst (pages_loop w d rest (pages, logs))"
proof (cases "st_size w (dump_fpath d fname)")
  case None
  then show ?thesis
    using pages_loop_acc [of w d rest pages "logs @ [Warning_Missing (dump_fpath d fname)]"]
      pages_loop_acc [of w d rest pages logs]
    by (simp add: Let_def)
next
  case (Some sz)
  then show ?thesis using assms by (simp add: Let_def)
qed

lemma pages_loop_entries:
  "\<exists>entries. fst (pages_loop w d ms ([], []))
       = concat (map (\<lambda>(p, a). [Str ''--raw'', RawPage p a]) entries) \<and>
     (\<forall>(p, a) \<in> set entries. st_size w p = Some 0x1000)"
proof (induction ms)
  case Nil
  have "fst (pages_loop w d [] ([], [])) = concat (map (\<lambda>(p, a). [Str ''--raw'', RawPage p a]) [])"
    by simp
  then show ?case by (intro exI [of _ "[]"]) simp
next
  case (Cons e ms)
  obtain addr fname where e: "e = (addr, fname)" by (cases e)
  obtain entries where IH:
    "fst (pages_loop w d ms ([], [])) = concat (map (\<lambda>(p, a). [Str ''--raw'', RawPage p a]) entries)"
    "\<forall>(p, a) \<in> set entries. st_size w p = Some 0x1000"
    using Cons.IH by blast
  let ?fpath = "dump_fpath d fname"
  show ?case
  proof (cases "st_size w ?fpath = Some 0x1000 \<and> path_name ?fpath \<noteq> ''(null)''")
    case True
    then have "fst (pages_loop w d (e # ms) ([], []))
        = [Str ''--raw'', RawPage ?fpath addr] @ fst (pages_loop w d ms ([], []))"
      using pages_loop_acc [of w d ms "[Str ''--raw'', RawPage ?fpath addr]" "[]"]
      by (simp add: e Let_def)
    then have "fst (pages_loop w d (e # ms) ([], []))
        = concat (map (\<lambda>(p, a). [Str ''--raw'', RawPage p a]) ((?fpath, addr) # entries))"
      using IH(1) by simp
    moreover have "\<forall>(p, a) \<in> set ((?fpath, addr) # entries). st_size w p = Some 0x1000"
      using IH(2) True by simp
    ultimately show ?thesis by blast
  next
    case False
    have "fst (pages_loop w d (e # ms) ([], [])) = fst (pages_loop w d ms ([], []))"
    proof (cases "st_size w ?fpath")
      case None
      then show ?thesis
        using pages_loop_acc [of w d ms "[]" "[Warning_Missing ?fpath]"] by (simp add: e Let_def)
    next
      case (Some sz)
      then show ?thesis using False by (auto simp: e Let_def)
    qed
    then show ?thesis using IH by auto
  qed
qed

lemma pages_loop_RawPage:
  assumes "RawPage p a \<in> set (fst (pages_loop w d ms ([], [])))"
  shows "st_size w p = Some 0x1000"
proof -
  obtain entries where
    "fst (pages_loop w d ms ([], [])) = concat (map (\<lambda>(p, a). [Str ''--raw'', RawPage p a]) entries)"
    "\<forall>(p, a) \<in> set entries. st_size w p = Some 0x1000"
    using pages_loop_entries by blast
  then show ?thesis using assms by auto
qed

lemma get_ptxed_cmdline_RawPage:
  assumes "get_ptxed_cmdline w d cr3_value pt_stream use_blocks = (logs, Inr (Some cmdline))"
    and "RawPage p a \<in> set cmdline"
  shows "st_size w p = Some 0x1000"
  using assms
  by (auto simp: get_ptxed_cmdline_def Let_def case_prod_beta
      split: if_splits sum.splits dest: pages_loop_RawPage)

text \<open>
  Claim C3. A raw-page argument stands in the command line only for a dump file that
  exists and whose size is exactly 4096 bytes. An entry whose file is missing or has
  another size contributes nothing: the arguments are those of the mapping without that
  entry. No page is included in part: the page arguments are a sequence of whole pairs,
  the option \<open>--raw\<close> followed by the file and its address, one pair for each file
  of exactly 4096 bytes.
\<close>

theorem raw_page_only_for_full_page_file:
  "(\<forall>logs cmdline p a.
      get_ptxed_cmdline w d cr3_value pt_stream use_blocks = (logs, Inr (Some cmdline)) \<longrightarrow>
      RawPage p a \<in> set cmdline \<longrightarrow> st_size w p = Some 0x1000) \<and>
   (st_size w (dump_fpath d fname) \<noteq> Some 0x1000 \<longrightarrow>
      fst (pages_loop w d (pre @ (addr, fname) # post) acc) = fst (pages_loop w d (pre @ post) acc)) \<and>
   (\<exists>entries. fst (pages_loop w d ms ([], []))
        = concat (map (\<lambda>(p, a). [Str ''--raw'', RawPage p a]) entries) \<and>
      (\<forall>(p, a) \<in> set entries. st_size w p = Some 0x1000))"
proof (intro conjI allI impI)
  fix logs cmdline p a
  assume "get_ptxed_cmdline w d cr3_value pt_stream use_blocks = (logs, Inr (Some cmdline))"
    and "RawPage p a \<in> set cmdline"
  then show "st_size w p = Some 0x1000" by (rule get_ptxed_cmdline_RawPage)
next
  assume miss: "st_size w (dump_fpath d fname) \<noteq> Some 0x1000"
  obtain pages logs where st: "pages_loop w d pre acc = (pages, logs)"
    by (cases "pages_loop w d pre acc")
  show "fst (pages_loop w d (pre @ (addr, fname) # post) acc) = fst (pages_loop w d (pre @ post) acc)"
    using pages_loop_skip [OF miss, of addr post pages logs]
    by (simp only: pages_loop_append st)
next
  show "\<exists>entries. fst (pages_loop w d ms ([], []))
        = concat (map (\<lambda>(p, a). [Str ''--raw'', RawPage p a]) entries) \<and>
      (\<forall>(p, a) \<in> set entries. st_size w p = Some 0x1000)"
    by (rule pages_loop_entries)
qed

text \<open>Three resolved faults: one dump of 4096 bytes, one of 100 bytes, one missing.\<close>

theorem raw_page_only_for_full_page_file_witness:
  "get_ptxed_cmdline
     \<lparr>load_drakvuf_output = (\<lambda>p. if p = [''an'', ''codemon.log''] then
          Inr [Pagefault \<lparr>CR3 = 0x5000, VA = 0xB010, PA = 0xC000\<rparr>,
               Pagefault \<lparr>CR3 = 0x5000, VA = 0x8000, PA = 0xA000\<rparr>,
               Pagefault \<lparr>CR3 = 0x5000, VA = 0x7004, PA = 0x9008\<rparr>,
               OtherEvent ''other'',
               Execframe \<lparr>CR3 = 0x5000, PageVA = 0x7000, TrapPA = 0x9000, DumpFile = ''f1''\<rparr>,
               Execframe \<lparr>CR3 = 0x5000, PageVA = 0x8000, TrapPA = 0xA000, DumpFile = ''f2''\<rparr>,
               Execframe \<lparr>CR3 = 0x6000, PageVA = 0xB000, TrapPA = 0xC000, DumpFile = ''f3''\<rparr>]
        else Inl OSError),
      st_size = (\<lambda>p. if p = [''an'', ''ipt'', ''dumps'', ''f1''] then Some 4096
                      else if p = [''an'', ''ipt'', ''dumps'', ''f2''] then Some 100 else None)\<rparr>
     [''an''] 0x5000 ''stream'' False
   = ([Warning_Missing [''an'', ''ipt'', ''dumps'', ''f3'']],
      Inr (Some [Str ''ptxed'', Str ''--block-decoder'', Str ''--block:show-blocks'',
                 Str ''--raw'', RawPage [''an'', ''ipt'', ''dumps'', ''f1''] 0x7000,
                 Str ''--pt'', Str ''stream''])) \<and>
   st_size
     \<lparr>load_drakvuf_output = (\<lambda>p. if p = [''an'', ''codemon.log''] then
          Inr [Pagefault \<lparr>CR3 = 0x5000, VA = 0xB010, PA = 0xC000\<rparr>,
               Pagefault \<lparr>CR3 = 0x5000, VA = 0x8000, PA = 0xA000\<rparr>,
               Pagefault \<lparr>CR3 = 0x5000, VA = 0x7004, PA = 0x9008\<rparr>,
               OtherEvent ''other'',
               Execframe \<lparr>CR3 = 0x5000, PageVA = 0x7000, TrapPA = 0x9000, DumpFile = ''f1''\<rparr>,
               Execframe \<lparr>CR3 = 0x5000, PageVA = 0x8000, TrapPA = 0xA000, DumpFile = ''f2''\<rparr>,
               Execframe \<lparr>CR3 = 0x6000, PageVA = 0xB000, TrapPA = 0xC000, DumpFile = ''f3''\<rparr>]
        else Inl OSError),
      st_size = (\<lambda>p. if p = [''an'', ''ipt'', ''dumps'', ''f1''] then Some 4096
                      else if p = [''an'', ''ipt'', ''dumps'', ''f2''] then Some 100 else None)\<rparr>
     [''an'', ''ipt'', ''dumps'', ''f1''] = Some 0x1000"
  (is "?run = (?logs, Inr (Some ?cmd)) \<and> st_size ?w ?p = _")
proof -
  have run: "?run = (?logs, Inr (Some ?cmd))" by code_simp
  moreover have "RawPage ?p 0x7000 \<in> set ?cmd" by simp
  ultimately have "st_size ?w ?p = Some 0x1000"
    using raw_page_only_for_full_page_file [of ?w "[''an'']" "0x5000" "''stream''" False]
    by blast
  with run show ?thesis by blast
qed

lemma path_name_dump_fpath:
  "path_name (path_parts fname) = ''(null)'' \<Longrightarrow> path_name (dump_fpath d fname) = ''(null)''"
  by (simp add: dump_fpath_def path_join_def path_name_def path_parts_def)

text \<open>
  Claim C10, as amended. A mapping entry whose dump-file base name is \<open>(null)\<close> adds
  no raw-page argument, also when a file of that name exists and has exactly 4096 bytes.
  When that file exists the entry is dropped without a warning; when it does not exist
  the entry is dropped with the warning for a missing file, as any other entry is.
\<close>

theorem null_sentinel_never_loaded:
  assumes "path_name (path_parts fname) = ''(null)''"
  shows "pages_loop w d ((addr, fname) # rest) (pages, logs) =
           pages_loop w d rest
             (pages, if st_size w (dump_fpath d fname) = None
                     then logs @ [Warning_Missing (dump_fpath d fname)] else logs)"
  using path_name_dump_fpath [OF assms, of d]
  by (simp add: Let_def split: option.split)

text \<open>A file named \<open>(null)\<close> of 4096 bytes is in the dump directory.\<close>

theorem null_sentinel_never_loaded_witness:
  "pages_loop \<lparr>load_drakvuf_output = (\<lambda>p. Inl OSError),
               st_size = (\<lambda>p. if p = [''an'', ''ipt'', ''dumps'', ''(null)'']
                               then Some 4096 else None)\<rparr>
     [''an''] [(0x7000, ''dir/(null)'')] ([], []) = ([], [])"
  (is "pages_loop ?w _ _ _ = _")
proof -
  have name: "path_name (path_parts ''dir/(null)'') = ''(null)''" by code_simp
  have fpath: "dump_fpath [''an''] ''dir/(null)'' = [''an'', ''ipt'', ''dumps'', ''(null)'']"
    by code_simp
  show ?thesis
    using null_sentinel_never_loaded [OF name, of ?w "[''an'']" "0x7000" "[]" "[]" "[]"]
    by (simp add: fpath)
qed

text \<open>
  Claim C10 as stated says that the entry is dropped without any warning. With no file of
  the name \<open>(null)\<close> in the dump directory, the usual case, the warning for a missing
  file is written.
\<close>

theorem null_sentinel_warning_counterexample:
  "get_ptxed_cmdline
     \<lparr>load_drakvuf_output = (\<lambda>p. if p = [''an'', ''codemon.log''] then
          Inr [Pagefault \<lparr>CR3 = 0x5000, VA = 0x7004, PA = 0x9008\<rparr>,
               Execframe \<lparr>CR3 = 0x5000, PageVA = 0x7000, TrapPA = 0x9000, DumpFile = ''(null)''\<rparr>]
        else Inl OSError),
      st_size = (\<lambda>p. None)\<rparr>
     [''an''] 0x5000 ''stream'' False
   = ([Warning_Missing [''an'', ''ipt'', ''dumps'', ''(null)'']],
      Inr (Some [Str ''ptxed'', Str ''--block-decoder'', Str ''--block:show-blocks'',
                 Str ''--pt'', Str ''stream'']))"
  by code_simp

section \<open>Properties of the normalisers\<close>

subsection \<open>Format A\<close>

lemma generate_ipt_blocks_ok:
  assumes "record_ok loads parse line"
  shows "generate_ipt_blocks loads parse (line # rest) =
           (case block_value loads parse line of
              None \<Rightarrow> generate_ipt_blocks loads parse rest
            | Some v \<Rightarrow> yield v (generate_ipt_blocks loads parse rest))"
  using assms
  by (auto simp: record_ok_def block_value_def
      split: sum.splits json.splits option.splits)

lemma generate_ipt_blocks_bad:
  assumes "\<not> record_ok loads parse line"
  shows "fst (generate_ipt_blocks loads parse (line # rest)) = [] \<and>
         snd (generate_ipt_blocks loads parse (line # rest)) \<noteq> None"
proof (cases "loads line")
  case (Inl e)
  then show ?thesis by simp
next
  case (Inr entry)
  show ?thesis
  proof (cases entry)
    case (JObj members)
    show ?thesis
    proof (cases "map_of (rev members) ''event''")
      case None
      then show ?thesis using Inr JObj by simp
    next
      case (Some tag)
      show ?thesis
      proof (cases "map_of (rev members) ''data''")
        case None
        then show ?thesis using Inr JObj Some assms by (auto simp: record_ok_def)
      next
        case (Some d)
        then show ?thesis
          using Inr JObj \<open>map_of (rev members) ''event'' = Some tag\<close> assms
          by (cases d) (auto simp: record_ok_def split: option.splits)
      qed
    qed
  qed (use Inr in simp_all)
qed

lemma generate_ipt_blocks_prefix:
  "fst (generate_ipt_blocks loads parse lines)
     = List.map_filter (block_value loads parse) (takeWhile (record_ok loads parse) lines) \<and>
   (snd (generate_ipt_blocks loads parse lines) = None
      \<longleftrightarrow> list_all (record_ok loads parse) lines)"
proof (induction lines)
  case Nil
  then show ?case by (simp add: map_filter_simps)
next
  case (Cons line rest)
  show ?case
  proof (cases "record_ok loads parse line")
    case True
    then show ?thesis
      using Cons.IH generate_ipt_blocks_ok [OF True, of rest]
      by (auto simp: map_filter_simps yield_def split: option.splits)
  next
    case False
    then show ?thesis
      using generate_ipt_blocks_bad [OF False, of rest]
      by (simp add: map_filter_simps)
  qed
qed

text \<open>
  Claim C7. On a stream of well-formed records, the values that \<open>generate_ipt_blocks\<close>
  yields are exactly the data fields, read in base 16, of the records tagged
  \<open>block_executed\<close>, in the order of the stream, and the generator ends without an
  exception; a record with any other tag contributes nothing. On any stream the values
  yielded are those of the well-formed records before the first line that is not one.
\<close>

theorem format_a_block_executed_only:
  "((\<forall>line \<in> set lines. record_ok loads parse line) \<longrightarrow>
      generate_ipt_blocks loads parse lines
        = (List.map_filter (block_value loads parse) lines, None)) \<and>
   fst (generate_ipt_blocks loads parse lines)
     = List.map_filter (block_value loads parse) (takeWhile (record_ok loads parse) lines)"
proof (intro conjI impI)
  assume ok: "\<forall>line \<in> set lines. record_ok loads parse line"
  then have all: "takeWhile (record_ok loads parse) lines = lines"
    by (simp add: takeWhile_eq_all_conv)
  have "list_all (record_ok loads parse) lines"
    using ok by (simp add: list_all_iff)
  then have "snd (generate_ipt_blocks loads parse lines) = None"
    using generate_ipt_blocks_prefix [of loads parse lines] by blast
  moreover have "fst (generate_ipt_blocks loads parse lines)
      = List.map_filter (block_value loads parse) lines"
    using generate_ipt_blocks_prefix [of loads parse lines] unfolding all by blast
  ultimately show "generate_ipt_blocks loads parse lines
        = (List.map_filter (block_value loads parse) lines, None)"
    by (simp add: prod_eq_iff)
next
  show "fst (generate_ipt_blocks loads parse lines)
     = List.map_filter (block_value loads parse) (takeWhile (record_ok loads parse) lines)"
    using generate_ipt_blocks_prefix [of loads parse lines] by blast
qed

text \<open>Three records, the second with another tag.\<close>

theorem format_a_block_executed_only_witness:
  "generate_ipt_blocks
     (\<lambda>line. if line = ''1'' then
                Inr (JObj [(''event'', JStr ''block_executed''), (''data'', JStr ''401000'')])
              else if line = ''2'' then Inr (JObj [(''event'', JStr ''other'')])
              else if line = ''3'' then
                Inr (JObj [(''data'', JStr ''401005''), (''event'', JStr ''block_executed'')])
              else Inl JSONDecodeError)
     (\<lambda>s. if list_all hexdigit s then int16 s else None)
     [''1'', ''2'', ''3'']
   = ([0x401000, 0x401005], None)"
  (is "generate_ipt_blocks ?loads ?parse ?lines = _")
proof -
  have "\<forall>line \<in> set ?lines. record_ok ?loads ?parse line" by code_simp
  then have "generate_ipt_blocks ?loads ?parse ?lines
      = (List.map_filter (block_value ?loads ?parse) ?lines, None)"
    using format_a_block_executed_only [of ?lines ?loads ?parse] by blast
  moreover have "List.map_filter (block_value ?loads ?parse) ?lines = [0x401000, 0x401005]"
    by code_simp
  ultimately show ?thesis by simp
qed

subsection \<open>Format B\<close>

lemma hexdigit_ascii: "hexdigit c \<Longrightarrow> (of_char c :: nat) < 128"
  by (auto simp: hexdigit_def)

lemma whitespace_ascii: "whitespace c \<Longrightarrow> (of_char c :: nat) < 128"
  by (auto simp: whitespace_def)

lemma hexdigit_not_whitespace: "hexdigit c \<Longrightarrow> \<not> whitespace c"
  by (auto simp: hexdigit_def whitespace_def)

lemma utf8_ok_ascii: "list_all (\<lambda>b. b < 128) bs \<Longrightarrow> utf8_ok bs"
  by (induction bs) auto

lemma decodes_ascii: "list_all (\<lambda>c. (of_char c :: nat) < 128) bs \<Longrightarrow> decodes bs"
  by (simp add: decodes_def utf8_ok_ascii list_all_iff)

lemma decodes_hex: "list_all hexdigit bs \<Longrightarrow> decodes bs"
  by (rule decodes_ascii) (auto simp: list_all_iff hexdigit_ascii)

lemma strip_split:
  "\<exists>t1 t2. bs = t1 @ strip bs @ t2 \<and> list_all whitespace t1 \<and> list_all whitespace t2"
proof -
  let ?d = "dropWhile whitespace bs"
  have "bs = takeWhile whitespace bs @ ?d" by simp
  moreover have "rev ?d = takeWhile whitespace (rev ?d) @ dropWhile whitespace (rev ?d)"
    by simp
  then have "?d = strip bs @ rev (takeWhile whitespace (rev ?d))"
    unfolding strip_def by (metis rev_append rev_rev_ident)
  ultimately have "bs = takeWhile whitespace bs @ strip bs @ rev (takeWhile whitespace (rev ?d))"
    by simp
  moreover have "list_all whitespace (takeWhile whitespace bs)"
    by (simp add: list_all_iff) (meson set_takeWhileD)
  moreover have "list_all whitespace (rev (takeWhile whitespace (rev ?d)))"
    by (simp add: list_all_iff) (meson set_takeWhileD)
  ultimately show ?thesis by blast
qed

lemma marker_shape:
  assumes "strip line = ''[block]''"
  obtains t1 t2 where "line = t1 @ ''[block]'' @ t2"
    and "list_all whitespace t1" and "list_all whitespace t2"
  using strip_split [of line] assms by metis

lemma marker_ascii:
  assumes "strip line = ''[block]''"
  shows "list_all (\<lambda>c. (of_char c :: nat) < 128) line"
proof -
  obtain t1 t2 where "line = t1 @ ''[block]'' @ t2"
    and "list_all whitespace t1" and "list_all whitespace t2"
    using assms by (rule marker_shape)
  then show ?thesis by (auto simp: list_all_iff whitespace_ascii)
qed

lemma marker_not_hex:
  assumes "strip line = ''[block]''"
  shows "\<not> list_all hexdigit (take 16 line)"
proof -
  obtain t1 t2 where line: "line = t1 @ ''[block]'' @ t2" and ws: "list_all whitespace t1"
    using assms by (rule marker_shape)
  show ?thesis
  proof (cases t1)
    case Nil
    then show ?thesis by (simp add: line hexdigit_def)
  next
    case (Cons c cs)
    then have "whitespace c" using ws by simp
    then have "\<not> hexdigit c" using hexdigit_not_whitespace by blast
    then show ?thesis by (simp add: line Cons)
  qed
qed

lemma marker_decodes_prefix:
  assumes "strip line = ''[block]''"
  shows "decodes (take 16 line)"
proof (rule decodes_ascii)
  show "list_all (\<lambda>c. (of_char c :: nat) < 128) (take 16 line)"
    using marker_ascii [OF assms] by (auto simp: list_all_iff dest: in_set_takeD)
qed

lemma marker_no_annotation:
  assumes "strip line = ''[block]''"
  shows "\<not> startswith line ''[cbr''" "\<not> startswith line ''[ptwrite''"
    "\<not> startswith line ''[enabled''" "\<not> startswith line ''[disabled''"
    "\<not> startswith line ''[resumed''" "\<not> startswith line ''[exec mode''"
proof -
  obtain t1 t2 where line: "line = t1 @ ''[block]'' @ t2" and ws: "list_all whitespace t1"
    using assms by (rule marker_shape)
  have "\<not> startswith line (CHR ''['' # c # p)" if "c \<noteq> CHR ''b''" for c p
  proof (cases t1)
    case Nil
    then show ?thesis using that by (auto simp: line startswith_def)
  next
    case (Cons d ds)
    then have "whitespace d" using ws by simp
    then have "d \<noteq> CHR ''[''" by (auto simp: whitespace_def)
    then show ?thesis by (auto simp: line Cons startswith_def)
  qed
  then show "\<not> startswith line ''[cbr''" "\<not> startswith line ''[ptwrite''"
    "\<not> startswith line ''[enabled''" "\<not> startswith line ''[disabled''"
    "\<not> startswith line ''[resumed''" "\<not> startswith line ''[exec mode''"
    by simp_all
qed

lemma line_tail_marker:
  assumes "strip line = ''[block]''"
  shows "line_tail line prev_block = Inr True"
proof -
  have "decodes (strip line)" unfolding assms by code_simp
  then show ?thesis
    using assms marker_no_annotation [OF assms] by (simp add: line_tail_def)
qed

lemma marker_sets_flag:
  assumes "strip line = ''[block]''"
  shows "generate_ptxed_loop prev_block (line # rest) = generate_ptxed_loop True rest"
  using marker_not_hex [OF assms] marker_decodes_prefix [OF assms]
  by (simp add: line_tail_marker [OF assms])

lemma line_tail_keeps:
  assumes "decodes (strip line)" and "strip line \<noteq> ''[block]''"
  shows "line_tail line prev_block = Inr prev_block"
  using assms by (simp add: line_tail_def)

lemma dropWhile_keeps_last:
  "xs \<noteq> [] \<Longrightarrow> \<not> P (last xs) \<Longrightarrow> dropWhile P xs \<noteq> [] \<and> last (dropWhile P xs) = last xs"
  by (induction xs) (auto split: if_splits)

lemma strip_first:
  assumes "line \<noteq> []" and "\<not> whitespace (hd line)"
  shows "strip line \<noteq> [] \<and> hd (strip line) = hd line"
proof -
  have d: "dropWhile whitespace line = line" using assms by (cases line) auto
  have "rev line \<noteq> []" and "\<not> whitespace (last (rev line))"
    using assms by (simp_all add: last_rev)
  then have "dropWhile whitespace (rev line) \<noteq> [] \<and>
      last (dropWhile whitespace (rev line)) = last (rev line)"
    by (rule dropWhile_keeps_last)
  then show ?thesis using assms(1) by (simp add: strip_def d hd_rev last_rev)
qed

lemma hex_line_tail:
  assumes "line \<noteq> []" and "list_all hexdigit (take 16 line)" and "decodes (strip line)"
  shows "line_tail line prev_block = Inr prev_block"
proof -
  obtain c cs where line: "line = c # cs" using assms(1) by (cases line) auto
  then have hex: "hexdigit c" using assms(2) by simp
  then have "\<not> whitespace c" by (rule hexdigit_not_whitespace)
  then have "strip line \<noteq> [] \<and> hd (strip line) = c"
    using strip_first [of line] line by simp
  moreover have "c \<noteq> CHR ''[''" using hex by (auto simp: hexdigit_def)
  ultimately have "strip line \<noteq> ''[block]''" by auto
  then show ?thesis using assms(3) by (rule line_tail_keeps [rotated])
qed

lemma address_line_yields:
  assumes "16 \<le> length line" and "list_all hexdigit (take 16 line)"
  shows "generate_ptxed_loop True (line # rest) =
           yield (hexvalue (take 16 line))
             (case line_tail line False of
                Inl e \<Rightarrow> ([], Some e)
              | Inr pb \<Rightarrow> generate_ptxed_loop pb rest)"
proof -
  have "take 16 line \<noteq> []" using assms(1) by auto
  then show ?thesis
    using assms(2) decodes_hex [OF assms(2)] by (simp add: int16_def)
qed

lemma address_line_resets_flag:
  assumes "16 \<le> length line" and "list_all hexdigit (take 16 line)" and "decodes (strip line)"
  shows "generate_ptxed_loop True (line # rest) =
           yield (hexvalue (take 16 line)) (generate_ptxed_loop False rest)"
proof -
  have "line \<noteq> []" using assms(1) by auto
  then have "line_tail line False = Inr False"
    using assms(2,3) by (rule hex_line_tail)
  then show ?thesis using address_line_yields [OF assms(1,2), of rest] by simp
qed

lemma other_line_no_value:
  assumes "\<not> list_all hexdigit (take 16 line)"
  shows "generate_ptxed_loop True (line # rest) =
           (if \<not> decodes (take 16 line) then ([], Some UnicodeDecodeError)
            else case line_tail line True of
                   Inl e \<Rightarrow> ([], Some e)
                 | Inr pb \<Rightarrow> generate_ptxed_loop pb rest)"
  using assms by simp

lemma failed_match_keeps_flag:
  assumes "\<not> list_all hexdigit (take 16 line)" and "decodes (take 16 line)"
    and "decodes (strip line)"
  shows "generate_ptxed_loop True (line # rest) = generate_ptxed_loop True rest"
proof (cases "strip line = ''[block]''")
  case True
  then show ?thesis by (rule marker_sets_flag)
next
  case False
  with assms(3) have "line_tail line True = Inr True" by (rule line_tail_keeps)
  then show ?thesis using assms(1,2) by simp
qed

lemma no_flag_no_value:
  assumes "decodes (strip line)" and "strip line \<noteq> ''[block]''"
  shows "generate_ptxed_loop False (line # rest) = generate_ptxed_loop False rest"
  using line_tail_keeps [OF assms, of False] by simp

text \<open>
  Claim C6, as amended. A line of at least 16 bytes that follows a marker line yields an
  address exactly when its first 16 bytes are all characters of \<open>0123456789abcdef\<close>,
  the lower-case hexadecimal digits, and the value yielded is the number those 16
  characters denote in base 16. A line with any other byte among its first 16 (an
  upper-case digit, or the newline that ends a shorter line) yields nothing.
\<close>

theorem address_line_after_marker:
  assumes "strip marker = ''[block]''"
  shows
  "(16 \<le> length line \<and> list_all hexdigit (take 16 line) \<longrightarrow>
      generate_ptxed_loop prev_block (marker # line # rest)
        = yield (hexvalue (take 16 line))
            (case line_tail line False of
               Inl e \<Rightarrow> ([], Some e)
             | Inr pb \<Rightarrow> generate_ptxed_loop pb rest)) \<and>
   (\<not> list_all hexdigit (take 16 line) \<longrightarrow>
      generate_ptxed_loop prev_block (marker # line # rest)
        = (if \<not> decodes (take 16 line) then ([], Some UnicodeDecodeError)
           else case line_tail line True of
                  Inl e \<Rightarrow> ([], Some e)
                | Inr pb \<Rightarrow> generate_ptxed_loop pb rest)) \<and>
   (16 \<le> length line \<or> \<not> list_all hexdigit (take 16 line) \<longrightarrow>
      fst (generate_ptxed [marker, line])
        = (if list_all hexdigit (take 16 line) then [hexvalue (take 16 line)] else []))"
proof -
  have flag: "generate_ptxed_loop pb (marker # ls) = generate_ptxed_loop True ls" for pb ls
    using assms by (rule marker_sets_flag)
  have hex: "generate_ptxed_loop True (line # ls) =
      yield (hexvalue (take 16 line))
        (case line_tail line False of
           Inl e \<Rightarrow> ([], Some e)
         | Inr pb \<Rightarrow> generate_ptxed_loop pb ls)"
    if "16 \<le> length line" "list_all hexdigit (take 16 line)" for ls
    using that by (rule address_line_yields)
  have other: "generate_ptxed_loop True (line # ls) =
      (if \<not> decodes (take 16 line) then ([], Some UnicodeDecodeError)
       else case line_tail line True of
              Inl e \<Rightarrow> ([], Some e)
            | Inr pb \<Rightarrow> generate_ptxed_loop pb ls)"
    if "\<not> list_all hexdigit (take 16 line)" for ls
    using that by (rule other_line_no_value)
  have two: "fst (generate_ptxed [marker, line])
      = (if list_all hexdigit (take 16 line) then [hexvalue (take 16 line)] else [])"
    if "16 \<le> length line \<or> \<not> list_all hexdigit (take 16 line)"
  proof (cases "list_all hexdigit (take 16 line)")
    case True
    with that have "16 \<le> length line" by blast
    then have "generate_ptxed [marker, line] =
        yield (hexvalue (take 16 line))
          (case line_tail line False of
             Inl e \<Rightarrow> ([], Some e)
           | Inr pb \<Rightarrow> generate_ptxed_loop pb [])"
      using True by (simp only: generate_ptxed_def flag hex)
    then show ?thesis
      using True by (cases "line_tail line False") (simp_all add: yield_def)
  next
    case False
    then have "generate_ptxed [marker, line] =
        (if \<not> decodes (take 16 line) then ([], Some UnicodeDecodeError)
         else case line_tail line True of
                Inl e \<Rightarrow> ([], Some e)
              | Inr pb \<Rightarrow> generate_ptxed_loop pb [])"
      by (simp only: generate_ptxed_def flag other [OF False])
    then show ?thesis
      using False by (cases "line_tail line True") simp_all
  qed
  show ?thesis using flag hex other two by (simp only:) blast
qed

text \<open>The three lines of the specification's example.\<close>

theorem address_line_after_marker_witness:
  "generate_ptxed
     [''[block]'' @ [CHR 0x0A], ''0000000000401000 instr'' @ [CHR 0x0A], ''[cbr 3]'' @ [CHR 0x0A]]
   = ([0x401000], None)"
proof -
  let ?M = "''[block]'' @ [CHR 0x0A]" and ?C = "''[cbr 3]'' @ [CHR 0x0A]"
  let ?A = "''0000000000401000 instr'' @ [CHR 0x0A]"
  have m: "strip ?M = ''[block]''" by code_simp
  have a: "16 \<le> length ?A \<and> list_all hexdigit (take 16 ?A)" by code_simp
  have "generate_ptxed_loop False [?M, ?A, ?C]
      = yield (hexvalue (take 16 ?A))
          (case line_tail ?A False of
             Inl e \<Rightarrow> ([], Some e)
           | Inr pb \<Rightarrow> generate_ptxed_loop pb [?C])"
    using address_line_after_marker [OF m, of ?A False "[?C]"] a by blast
  moreover have "yield (hexvalue (take 16 ?A))
          (case line_tail ?A False of
             Inl e \<Rightarrow> ([], Some e)
           | Inr pb \<Rightarrow> generate_ptxed_loop pb [?C]) = ([0x401000], None)"
    by code_simp
  ultimately show ?thesis by (simp add: generate_ptxed_def)
qed

text \<open>
  Claim C6 as stated lets every 16-character hexadecimal prefix yield and no shorter one.
  A prefix with the upper-case digits \<open>AB\<close> yields nothing, and a last line
  \<open>abc\<close> without a newline yields \<open>0xabc\<close>.
\<close>

theorem address_line_counterexample:
  "generate_ptxed [''[block]'' @ [CHR 0x0A], ''00000000004010AB instr'' @ [CHR 0x0A]]
     = ([], None) \<and>
   generate_ptxed [''[block]'' @ [CHR 0x0A], ''abc''] = ([0xabc], None)"
  by code_simp

text \<open>
  Claim C5, as amended. The flag \<open>prev_block\<close> is set by a marker line and cleared only
  by a line that yields an address; a line that fails the address test leaves it set.
  A marker line sets the flag. With the flag set, a line whose first 16 bytes,
  \<open>line[:16]\<close>, are not all characters of \<open>0123456789abcdef\<close> yields no value and
  leaves the flag set, so that a later address line still yields; it does not raise
  when both \<open>line[:16]\<close> and the stripped line decode as UTF-8 (that the whole line
  decodes is not enough: the cut after 16 bytes may fall inside a character). With the
  flag set, a line of at least 16 bytes whose first 16 are such characters, and whose
  stripped form decodes, yields their value and clears the flag. With the flag clear, a
  line that is no marker and whose stripped form decodes yields nothing, hexadecimal or
  not.
\<close>

theorem flag_reset_only_after_success:
  "(strip line = ''[block]'' \<longrightarrow>
      generate_ptxed_loop prev_block (line # rest) = generate_ptxed_loop True rest) \<and>
   (\<not> list_all hexdigit (take 16 line) \<and> decodes (take 16 line) \<and> decodes (strip line) \<longrightarrow>
      generate_ptxed_loop True (line # rest) = generate_ptxed_loop True rest) \<and>
   (16 \<le> length line \<and> list_all hexdigit (take 16 line) \<and> decodes (strip line) \<longrightarrow>
      generate_ptxed_loop True (line # rest)
        = yield (hexvalue (take 16 line)) (generate_ptxed_loop False rest)) \<and>
   (decodes (strip line) \<and> strip line \<noteq> ''[block]'' \<longrightarrow>
      generate_ptxed_loop False (line # rest) = generate_ptxed_loop False rest)"
  using marker_sets_flag [of line prev_block rest] failed_match_keeps_flag [of line rest]
    address_line_resets_flag [of line rest] no_flag_no_value [of line rest]
  by blast

text \<open>Marker, annotation, address, address: only the first address is yielded.\<close>

theorem flag_reset_only_after_success_witness:
  "generate_ptxed
     [''[block]'' @ [CHR 0x0A], ''[cbr 3]'' @ [CHR 0x0A],
      ''0000000000401000 instr'' @ [CHR 0x0A], ''0000000000401005 instr'' @ [CHR 0x0A]]
   = ([0x401000], None)"
proof -
  let ?M = "''[block]'' @ [CHR 0x0A]" and ?C = "''[cbr 3]'' @ [CHR 0x0A]"
  let ?A = "''0000000000401000 instr'' @ [CHR 0x0A]"
  let ?B = "''0000000000401005 instr'' @ [CHR 0x0A]"
  have "strip ?M = ''[block]''" by code_simp
  then have 1: "generate_ptxed_loop False [?M, ?C, ?A, ?B] = generate_ptxed_loop True [?C, ?A, ?B]"
    using flag_reset_only_after_success [of ?M False "[?C, ?A, ?B]"] by blast
  have "\<not> list_all hexdigit (take 16 ?C) \<and> decodes (take 16 ?C) \<and> decodes (strip ?C)"
    by code_simp
  then have 2: "generate_ptxed_loop True [?C, ?A, ?B] = generate_ptxed_loop True [?A, ?B]"
    using flag_reset_only_after_success [of ?C True "[?A, ?B]"] by blast
  have "16 \<le> length ?A \<and> list_all hexdigit (take 16 ?A) \<and> decodes (strip ?A)"
    by code_simp
  then have 3: "generate_ptxed_loop True [?A, ?B]
      = yield (hexvalue (take 16 ?A)) (generate_ptxed_loop False [?B])"
    using flag_reset_only_after_success [of ?A True "[?B]"] by blast
  have "decodes (strip ?B) \<and> strip ?B \<noteq> ''[block]''" by code_simp
  then have 4: "generate_ptxed_loop False [?B] = generate_ptxed_loop False []"
    using flag_reset_only_after_success [of ?B False "[]"] by blast
  have 5: "hexvalue (take 16 ?A) = 0x401000" by code_simp
  show ?thesis
    unfolding generate_ptxed_def 1 2 3 4 5 by (simp add: yield_def)
qed

text \<open>
  Claim C5 as stated lets only the line right after the marker yield, and lets no
  non-matching line raise. After a marker line and an annotation line, the address line
  that follows still yields its address. A marker line followed by a line that is not
  UTF-8 raises; so does one followed by a line of valid UTF-8 whose sixteenth byte is the
  first byte of a two-byte character.
\<close>

theorem flag_not_reset_counterexample:
  "generate_ptxed
     [''[block]'' @ [CHR 0x0A], ''[cbr 3]'' @ [CHR 0x0A], ''0000000000401000 instr'' @ [CHR 0x0A]]
     = ([0x401000], None) \<and>
   generate_ptxed [''[block]'' @ [CHR 0x0A], [CHR 0xFF, CHR 0x0A]]
     = ([], Some UnicodeDecodeError) \<and>
   decodes (''000000000040100'' @ [CHR 0xC3, CHR 0xA9, CHR 0x0A]) \<and>
   generate_ptxed [''[block]'' @ [CHR 0x0A], ''000000000040100'' @ [CHR 0xC3, CHR 0xA9, CHR 0x0A]]
     = ([], Some UnicodeDecodeError)"
  by code_simp

end
